theory Spec2Isabelle
  imports Complex_Main "HOL-Library.Multiset" "HOL-Library.Sublist" "HOL-Library.AList"
begin

section \<open>Data model\<close>

text \<open>
  The metrics calculator of \<^verbatim>\<open>src/analytics/metrics.py\<close> works on plain Python
  dictionaries handed over by the storage layer. A dictionary entry can be absent, present
  with the value \<^verbatim>\<open>None\<close>, or present with a value; the three cases behave differently
  under \<^verbatim>\<open>d[k]\<close>, \<^verbatim>\<open>d.get(k)\<close> and \<^verbatim>\<open>d.get(k, default)\<close>, so all three are kept.
\<close>

datatype error = PaperNotFound string | KeyError string | AttributeError | ZeroDivisionError

datatype 'a field = Missing | Null | Val 'a

text \<open>\<^verbatim>\<open>d.get(k)\<close>: \<^verbatim>\<open>None\<close> for an absent key and for a stored \<^verbatim>\<open>None\<close>.\<close>

fun get :: "'a field \<Rightarrow> 'a option" where
  "get Missing = None"
| "get Null = None"
| "get (Val v) = Some v"

text \<open>\<^verbatim>\<open>d.get(k, default)\<close>: the default replaces an absent key only; a stored
  \<^verbatim>\<open>None\<close> is returned as it is.\<close>

fun get_default :: "'a field \<Rightarrow> 'a \<Rightarrow> 'a option" where
  "get_default Missing d = Some d"
| "get_default Null d = None"
| "get_default (Val v) d = Some v"

text \<open>\<^verbatim>\<open>d[k]\<close>: raises \<^verbatim>\<open>KeyError\<close> for an absent key.\<close>

fun subscript :: "string \<Rightarrow> 'a field \<Rightarrow> error + 'a option" where
  "subscript k Missing = Inl (KeyError k)"
| "subscript k Null = Inr None"
| "subscript k (Val v) = Inr (Some v)"

text \<open>Truth value of an optional integer: \<^verbatim>\<open>None\<close> and \<^verbatim>\<open>0\<close> are false.\<close>

fun truthy :: "int option \<Rightarrow> bool" where
  "truthy None = False"
| "truthy (Some n) = (n \<noteq> 0)"

text \<open>
  An element of \<^verbatim>\<open>db.get_papers_with_latest_citations()\<close>. The storage layer is not part
  of the sources at hand, so the list it returns is a parameter of every operation below.
  \<^verbatim>\<open>title\<close> and \<^verbatim>\<open>citations\<close> are always there; \<^verbatim>\<open>year\<close>, \<^verbatim>\<open>doi\<close> and
  \<^verbatim>\<open>venue\<close> are optional.
\<close>

record paper =
  title :: string
  citations :: int
  year :: "int field"
  doi :: "string field"
  venue :: "string field"

subsection \<open>Python's sorting and slicing\<close>

text \<open>
  \<^verbatim>\<open>sorted(xs, key=key, reverse=True)\<close> and \<^verbatim>\<open>xs.sort(key=key, reverse=True)\<close>: the
  list is reversed, sorted by the stable ascending sort, and reversed again, which keeps
  elements with equal keys in their original order.
\<close>

definition sorted_reverse :: "('a \<Rightarrow> 'k::linorder) \<Rightarrow> 'a list \<Rightarrow> 'a list" where
  "sorted_reverse key xs = rev (sort_key key (rev xs))"

text \<open>\<^verbatim>\<open>xs[:limit]\<close>: a negative limit counts from the end of the list.\<close>

definition slice_to :: "'a list \<Rightarrow> int \<Rightarrow> 'a list" where
  "slice_to xs limit =
     (if limit < 0 then take (nat (int (length xs) + limit)) xs else take (nat limit) xs)"

text \<open>A list comprehension whose element expression can raise: the first error wins.\<close>

fun comprehension :: "('a \<Rightarrow> error + 'b) \<Rightarrow> 'a list \<Rightarrow> error + 'b list" where
  "comprehension f [] = Inr []"
| "comprehension f (x # xs) =
     (case f x of
        Inl e \<Rightarrow> Inl e
      | Inr y \<Rightarrow> (case comprehension f xs of Inl e \<Rightarrow> Inl e | Inr ys \<Rightarrow> Inr (y # ys)))"

section \<open>calculate_h_index\<close>

text \<open>
  The loop \<^verbatim>\<open>for i, citations in enumerate(sorted_citations, 1)\<close>: \<open>i\<close> is the rank of
  the next element \<open>c\<close>, \<open>h_index\<close> the value assigned so far; the \<^verbatim>\<open>else: break\<close> branch
  leaves the loop with the value assigned so far.
\<close>

fun h_loop :: "int \<Rightarrow> int list \<Rightarrow> int \<Rightarrow> int" where
  "h_loop i [] h_index = h_index"
| "h_loop i (c # rest) h_index =
     (if c \<ge> i then h_loop (i + 1) rest i else h_index)"

definition calculate_h_index :: "int list \<Rightarrow> int" where
  "calculate_h_index citation_counts =
     (if citation_counts = [] then 0
      else h_loop 1 (sorted_reverse (\<lambda>c. c) citation_counts) 0)"

section \<open>get_summary_stats\<close>

text \<open>
  Python's \<^verbatim>\<open>/\<close> on integers raises \<^verbatim>\<open>ZeroDivisionError\<close> on a zero divisor. Its
  result is a binary64 float; the model keeps the exact quotient, which is the float's
  value whenever the quotient is representable (it is for the empty paper set, where the
  guard yields the integer 0 and no division happens).
\<close>

definition truediv :: "int \<Rightarrow> int \<Rightarrow> error + rat" where
  "truediv a b = (if b = 0 then Inl ZeroDivisionError else Inr (of_int a / of_int b))"

record summary_stats =
  stats_total_papers :: int
  stats_total_citations :: int
  stats_h_index :: int
  stats_avg_citations :: rat
  stats_papers_change :: int
  stats_citations_change :: int
  stats_h_index_change :: int

definition get_summary_stats :: "string \<Rightarrow> paper list \<Rightarrow> error + summary_stats" where
  "get_summary_stats period papers =
     (let total_papers = int (length papers);
          total_citations = sum_list (map citations papers);
          citation_counts = map citations papers;
          h_index = calculate_h_index citation_counts
      in case (if total_papers > 0 then truediv total_citations total_papers else Inr 0) of
           Inl e \<Rightarrow> Inl e
         | Inr avg_citations \<Rightarrow>
             Inr \<lparr>stats_total_papers = total_papers,
                  stats_total_citations = total_citations,
                  stats_h_index = h_index,
                  stats_avg_citations = avg_citations,
                  stats_papers_change = 0,
                  stats_citations_change = 0,
                  stats_h_index_change = 0\<rparr>)"

section \<open>get_top_papers\<close>

record top_entry =
  top_title :: string
  top_citations :: int
  top_year :: "int option"
  top_doi :: "string option"
  top_venue :: "string option"

text \<open>The dictionary built for one paper: \<^verbatim>\<open>p['year']\<close> is a subscript, the \<^verbatim>\<open>doi\<close>
  and \<^verbatim>\<open>venue\<close> entries are read with \<^verbatim>\<open>get\<close>.\<close>

definition top_entry_of :: "paper \<Rightarrow> error + top_entry" where
  "top_entry_of p =
     (case subscript ''year'' (year p) of
        Inl e \<Rightarrow> Inl e
      | Inr y \<Rightarrow>
          Inr \<lparr>top_title = title p,
               top_citations = citations p,
               top_year = y,
               top_doi = get (doi p),
               top_venue = get (venue p)\<rparr>)"

definition get_top_papers :: "paper list \<Rightarrow> int \<Rightarrow> error + top_entry list" where
  "get_top_papers papers limit =
     (let top_papers = slice_to (sorted_reverse citations papers) limit
      in comprehension top_entry_of top_papers)"

section \<open>get_paper_stats\<close>

text \<open>
  The two tables the function queries. A row of \<^verbatim>\<open>papers\<close> has every column, a SQL
  \<^verbatim>\<open>NULL\<close> being \<open>None\<close>. Timestamps are naive datetimes, kept as microseconds since
  an arbitrary origin, the resolution of \<^verbatim>\<open>datetime\<close>; a history record holds its
  timestamp as \<^verbatim>\<open>datetime.fromisoformat\<close> reads it from a well-formed ISO string.
\<close>

record paper_row =
  row_id :: int
  row_title :: string
  row_doi :: "string option"
  row_arxiv_id :: "string option"
  row_year :: "int option"
  row_venue :: "string option"

record citation_row =
  cit_paper_id :: int
  cit_citation_count :: int
  cit_timestamp :: int

record database =
  papers_table :: "paper_row list"
  citations_table :: "citation_row list"

record history_record =
  timestamp :: int
  citation_count :: int

definition usec_per_day :: int where
  "usec_per_day = 86400000000"

text \<open>\<^verbatim>\<open>(now - record_date).days\<close>: a \<^verbatim>\<open>timedelta\<close> is normalised so that its
  \<^verbatim>\<open>days\<close> is the floor of the difference in days, also when the difference is negative.\<close>

definition days_ago :: "int \<Rightarrow> history_record \<Rightarrow> int" where
  "days_ago now rec = (now - timestamp rec) div usec_per_day"

text \<open>\<^verbatim>\<open>SELECT * FROM papers WHERE doi = ? OR arxiv_id = ?\<close> with \<^verbatim>\<open>fetchone()\<close>: the first
  matching row; a \<^verbatim>\<open>NULL\<close> column equals nothing.\<close>

definition find_paper :: "database \<Rightarrow> string \<Rightarrow> paper_row option" where
  "find_paper db identifier =
     find (\<lambda>r. row_doi r = Some identifier \<or> row_arxiv_id r = Some identifier) (papers_table db)"

text \<open>\<^verbatim>\<open>SELECT MAX(citation_count) ... WHERE paper_id = ?\<close>: \<^verbatim>\<open>NULL\<close> when no row
  matches.\<close>

fun sql_max :: "int list \<Rightarrow> int option" where
  "sql_max [] = None"
| "sql_max (x # xs) = (case sql_max xs of None \<Rightarrow> Some x | Some m \<Rightarrow> Some (max x m))"

text \<open>\<^verbatim>\<open>latest['citations'] if latest and latest['citations'] else 0\<close>.\<close>

definition current_citations :: "database \<Rightarrow> int \<Rightarrow> int" where
  "current_citations db paper_id =
     (case sql_max (map cit_citation_count
                      (filter (\<lambda>r. cit_paper_id r = paper_id) (citations_table db))) of
        None \<Rightarrow> 0
      | Some m \<Rightarrow> if m \<noteq> 0 then m else 0)"

text \<open>Modelled from the spec: \<^verbatim>\<open>Database.get_citation_history(paper_id, days)\<close> is not among
  the sources; the specification gives it as the list of \<open>{timestamp, citation_count}\<close>
  of the paper's citation records within a window of \<open>days\<close> days.\<close>

definition get_citation_history :: "database \<Rightarrow> int \<Rightarrow> int \<Rightarrow> int \<Rightarrow> history_record list" where
  "get_citation_history db now paper_id days =
     map (\<lambda>r. \<lparr>timestamp = cit_timestamp r, citation_count = cit_citation_count r\<rparr>)
       (filter (\<lambda>r. cit_paper_id r = paper_id \<and> now - days * usec_per_day \<le> cit_timestamp r)
          (citations_table db))"

text \<open>The loop over the history; the accumulator is
  \<open>(citations_7d, citations_30d, citations_1y)\<close>.\<close>

fun growth_loop :: "int \<Rightarrow> history_record list \<Rightarrow> int \<times> int \<times> int \<Rightarrow> int \<times> int \<times> int" where
  "growth_loop now [] acc = acc"
| "growth_loop now (rec # rest) (citations_7d, citations_30d, citations_1y) =
     (let d = days_ago now rec;
          c7 = (if d \<le> 7 then max citations_7d (citation_count rec) else citations_7d);
          c30 = (if d \<le> 30 then max citations_30d (citation_count rec) else citations_30d);
          c1y = (if d \<le> 365 then max citations_1y (citation_count rec) else citations_1y)
      in growth_loop now rest (c7, c30, c1y))"

record paper_stats =
  ps_title :: string
  ps_doi :: "string option"
  ps_arxiv_id :: "string option"
  ps_year :: "int option"
  ps_venue :: "string option"
  ps_citations :: int
  ps_citations_7d :: int
  ps_citations_30d :: int
  ps_citations_1y :: int

text \<open>
  \<open>history_of\<close> stands for the bound method \<^verbatim>\<open>self.db.get_citation_history\<close>, called with
  the paper's id and \<^verbatim>\<open>days=365\<close>; \<open>now\<close> is \<^verbatim>\<open>datetime.now()\<close>.
\<close>

definition get_paper_stats ::
  "database \<Rightarrow> (int \<Rightarrow> int \<Rightarrow> history_record list) \<Rightarrow> int \<Rightarrow> string \<Rightarrow> error + paper_stats" where
  "get_paper_stats db history_of now identifier =
     (case find_paper db identifier of
        None \<Rightarrow> Inl (PaperNotFound identifier)
      | Some paper \<Rightarrow>
          (let paper_id = row_id paper;
               history = history_of paper_id 365;
               (citations_7d, citations_30d, citations_1y) = growth_loop now history (0, 0, 0);
               current = current_citations db paper_id
           in Inr \<lparr>ps_title = row_title paper,
                   ps_doi = row_doi paper,
                   ps_arxiv_id = row_arxiv_id paper,
                   ps_year = row_year paper,
                   ps_venue = row_venue paper,
                   ps_citations = current,
                   ps_citations_7d = (if citations_7d \<noteq> 0 then current - citations_7d else 0),
                   ps_citations_30d = (if citations_30d \<noteq> 0 then current - citations_30d else 0),
                   ps_citations_1y = (if citations_1y \<noteq> 0 then current - citations_1y else 0)\<rparr>))"

text \<open>
  The growth the specification describes for a horizon: the current count minus the
  maximum count observed within the horizon, reported as 0 instead of a negative number.
\<close>

definition spec_growth :: "int \<Rightarrow> int \<Rightarrow> history_record list \<Rightarrow> int \<Rightarrow> int" where
  "spec_growth now current history horizon =
     max 0 (current - Max (citation_count ` {r \<in> set history. days_ago now r \<le> horizon}))"

text \<open>The largest count among the history records at most \<open>horizon\<close> days old, and 0
  when there is none (or none is positive).\<close>

definition horizon_max :: "int \<Rightarrow> history_record list \<Rightarrow> int \<Rightarrow> int" where
  "horizon_max now history horizon =
     Max (insert 0 (citation_count ` {r \<in> set history. days_ago now r \<le> horizon}))"

section \<open>get_citation_trends\<close>

text \<open>
  \<^verbatim>\<open>by_year\<close> is a dictionary from years to \<open>{papers, citations}\<close>; it is kept as an
  association list in insertion order, as a Python dictionary is. \<open>AList.update\<close> overwrites
  the value of a key that is there and appends a new key at the end.
\<close>

record bucket =
  bucket_papers :: int
  bucket_citations :: int

text \<open>The body of \<^verbatim>\<open>if year:\<close>: a new year starts from \<open>{papers: 0, citations: 0}\<close>, then
  both counters are incremented.\<close>

definition by_year_add :: "(int \<times> bucket) list \<Rightarrow> int \<Rightarrow> int \<Rightarrow> (int \<times> bucket) list" where
  "by_year_add by_year y c =
     (let b = (case map_of by_year y of
                 None \<Rightarrow> \<lparr>bucket_papers = 0, bucket_citations = 0\<rparr>
               | Some b \<Rightarrow> b)
      in AList.update y \<lparr>bucket_papers = bucket_papers b + 1,
                         bucket_citations = bucket_citations b + c\<rparr> by_year)"

fun trends_loop :: "paper list \<Rightarrow> (int \<times> bucket) list \<Rightarrow> (int \<times> bucket) list" where
  "trends_loop [] by_year = by_year"
| "trends_loop (p # rest) by_year =
     (case get (year p) of
        Some y \<Rightarrow>
          if y \<noteq> 0 then trends_loop rest (by_year_add by_year y (citations p))
          else trends_loop rest by_year
      | None \<Rightarrow> trends_loop rest by_year)"

record citation_trends =
  by_year :: "(int \<times> bucket) list"
  trends_total_papers :: int
  trends_total_citations :: int

definition get_citation_trends :: "paper list \<Rightarrow> citation_trends" where
  "get_citation_trends papers =
     \<lparr>by_year = trends_loop papers [],
      trends_total_papers = int (length papers),
      trends_total_citations = sum_list (map citations papers)\<rparr>"

section \<open>identify_low_visibility_papers\<close>

text \<open>
  \<^verbatim>\<open>str.lower\<close> and \<^verbatim>\<open>term in venue\<close>, on ASCII venue names: the upper-case letters
  \<open>A\<close> to \<open>Z\<close> (codes 65 to 90) move to lower case, every other character stays.
\<close>

definition lower_char :: "char \<Rightarrow> char" where
  "lower_char c =
     (let n = (of_char c :: nat) in if 65 \<le> n \<and> n \<le> 90 then char_of (n + 32) else c)"

definition lower :: "string \<Rightarrow> string" where
  "lower s = map lower_char s"

fun contains :: "string \<Rightarrow> string \<Rightarrow> bool" where
  "contains t [] = (t = [])"
| "contains t (c # cs) = (prefix t (c # cs) \<or> contains t cs)"

text \<open>
  \<^verbatim>\<open>_estimate_potential\<close>. \<open>now_year\<close> is \<^verbatim>\<open>datetime.now().year\<close>. The score is a
  Python float; every summand is an integer or half an integer, so the exact rational
  below is the float's value as long as \<open>3 - age\<close> stays below \<open>2^53\<close>, which it
  does for every paper \<^verbatim>\<open>identify_low_visibility_papers\<close> scores (there \<open>age \<ge> 1\<close>).
  \<^verbatim>\<open>paper.get('venue', '').lower()\<close> raises \<^verbatim>\<open>AttributeError\<close> when the venue is stored
  as \<^verbatim>\<open>None\<close>.
\<close>

definition estimate_potential :: "int \<Rightarrow> paper \<Rightarrow> error + rat" where
  "estimate_potential now_year p =
     (case get_default (venue p) [] of
        None \<Rightarrow> Inl AttributeError
      | Some v \<Rightarrow>
          (let venue_l = lower v;
               score0 = (0 :: rat);
               score1 =
                 (if list_ex (\<lambda>t. contains t venue_l)
                       [''nature'', ''science'', ''cell'', ''lancet'', ''pnas'']
                  then score0 + 10
                  else if list_ex (\<lambda>t. contains t venue_l) [''ieee'', ''acm'', ''springer'']
                  then score0 + 5
                  else score0);
               score2 =
                 (case get (year p) of
                    Some y \<Rightarrow>
                      if y \<noteq> 0
                      then (let age = now_year - y
                            in if age < 3 then score1 + of_int (3 - age) * 2 else score1)
                      else score1
                  | None \<Rightarrow> score1);
               c = citations p;
               score3 = (if c > 0 then score2 + of_int (min c 10) * (1 / 2) else score2)
           in Inr score3))"

record low_visibility_entry =
  lv_title :: string
  lv_year :: int
  lv_citations :: int
  lv_age :: int
  lv_doi :: "string option"
  lv_potential :: rat

text \<open>The loop that fills \<^verbatim>\<open>low_visibility\<close>, entries in the order of the papers; an
  error raised while scoring a paper ends the whole call.\<close>

fun low_visibility_loop :: "int \<Rightarrow> int \<Rightarrow> paper list \<Rightarrow> error + low_visibility_entry list" where
  "low_visibility_loop now_year threshold [] = Inr []"
| "low_visibility_loop now_year threshold (p # rest) =
     (case get (year p) of
        None \<Rightarrow> low_visibility_loop now_year threshold rest
      | Some y \<Rightarrow>
          if y \<noteq> 0 \<and> now_year - y \<ge> 1 \<and> citations p < threshold
          then (case estimate_potential now_year p of
                  Inl e \<Rightarrow> Inl e
                | Inr potential \<Rightarrow>
                    (case low_visibility_loop now_year threshold rest of
                       Inl e \<Rightarrow> Inl e
                     | Inr entries \<Rightarrow>
                         Inr (\<lparr>lv_title = title p,
                               lv_year = y,
                               lv_citations = citations p,
                               lv_age = now_year - y,
                               lv_doi = get (doi p),
                               lv_potential = potential\<rparr> # entries)))
          else low_visibility_loop now_year threshold rest)"

definition identify_low_visibility_papers ::
  "int \<Rightarrow> paper list \<Rightarrow> int \<Rightarrow> error + low_visibility_entry list" where
  "identify_low_visibility_papers now_year papers threshold =
     (case low_visibility_loop now_year threshold papers of
        Inl e \<Rightarrow> Inl e
      | Inr low_visibility \<Rightarrow> Inr (sorted_reverse lv_potential low_visibility))"

section \<open>Example data\<close>

text \<open>
  A database with one paper and two citation records of it: 5 citations reported 20 days
  before \<open>example_now\<close> and 0 citations reported one day before it (two platforms that
  disagree, or a count corrected downwards).
\<close>

definition example_db :: database where
  "example_db =
     \<lparr>papers_table =
        [\<lparr>row_id = 1, row_title = ''Paper'', row_doi = Some ''10.1000/x'', row_arxiv_id = None,
          row_year = Some 2020, row_venue = None\<rparr>],
      citations_table =
        [\<lparr>cit_paper_id = 1, cit_citation_count = 5, cit_timestamp = 380 * usec_per_day\<rparr>,
         \<lparr>cit_paper_id = 1, cit_citation_count = 0, cit_timestamp = 399 * usec_per_day\<rparr>]\<rparr>"

definition example_now :: int where
  "example_now = 400 * usec_per_day"

text \<open>Papers for \<^verbatim>\<open>identify_low_visibility_papers\<close> in the year 2026, and for
  \<^verbatim>\<open>get_top_papers\<close>.\<close>

definition example_papers :: "paper list" where
  "example_papers =
     [\<lparr>title = ''Mid'', citations = 1, year = Val 2024, doi = Null, venue = Missing\<rparr>,
      \<lparr>title = ''New'', citations = 0, year = Val 2026, doi = Null, venue = Val ''ACM Queue''\<rparr>,
      \<lparr>title = ''Old'', citations = 2, year = Val 2020, doi = Val ''10.1000/old'',
        venue = Val ''Nature Physics''\<rparr>,
      \<lparr>title = ''Cited'', citations = 50, year = Val 2015, doi = Null, venue = Val ''Cell''\<rparr>]"

definition example_top_papers :: "paper list" where
  "example_top_papers =
     [\<lparr>title = ''A'', citations = 2, year = Val 2020, doi = Null, venue = Null\<rparr>,
      \<lparr>title = ''B'', citations = 5, year = Null, doi = Missing, venue = Val ''V''\<rparr>,
      \<lparr>title = ''C'', citations = 2, year = Val 2019, doi = Null, venue = Null\<rparr>]"

section \<open>Properties of calculate_h_index\<close>

lemma sorted_reverse_ints: "sorted_reverse (\<lambda>c. c) (xs :: int list) = rev (sort xs)"
proof -
  have "sort (rev xs) = sort xs"
    by (rule properties_for_sort) simp_all
  then show ?thesis by (simp add: sorted_reverse_def)
qed

text \<open>What the loop computes from rank \<open>i\<close> on: it advances over \<open>n\<close> elements, each
  at least its rank, and stops at the first element below its rank.\<close>

lemma h_loop_props:
  "\<exists>n\<le>length rest. h_loop i rest (i - 1) = i - 1 + int n
      \<and> (\<forall>j<n. i + int j \<le> rest ! j)
      \<and> (n < length rest \<longrightarrow> rest ! n < i + int n)"
proof (induction rest arbitrary: i)
  case Nil
  then show ?case by simp
next
  case (Cons c rest)
  show ?case
  proof (cases "i \<le> c")
    case False
    then show ?thesis by (intro exI[of _ 0]) simp
  next
    case True
    from Cons.IH[of "i + 1"] obtain n where n: "n \<le> length rest"
      "h_loop (i + 1) rest i = i + int n"
      "\<forall>j<n. i + 1 + int j \<le> rest ! j"
      "n < length rest \<longrightarrow> rest ! n < i + 1 + int n"
      by auto
    have "\<forall>j<Suc n. i + int j \<le> (c # rest) ! j"
    proof (intro allI impI)
      fix j assume "j < Suc n"
      then show "i + int j \<le> (c # rest) ! j"
        using True n(3) by (cases j) auto
    qed
    with True n show ?thesis
      by (intro exI[of _ "Suc n"]) auto
  qed
qed

lemma descending_nth:
  "sorted_wrt (\<lambda>a b. b \<le> a) (s :: int list) \<Longrightarrow> i \<le> j \<Longrightarrow> j < length s \<Longrightarrow> s ! j \<le> s ! i"
  by (cases "i = j") (auto simp: sorted_wrt_iff_nth_less)

lemma descending_rev_sort: "sorted_wrt (\<lambda>a b. b \<le> a) (rev (sort (xs :: int list)))"
  by (simp add: sorted_wrt_rev)

lemma h_loop_Max:
  assumes "sorted_wrt (\<lambda>a b. b \<le> a) s"
  shows "h_loop 1 s 0 =
           Max (insert 0 {i. 1 \<le> i \<and> i \<le> int (length s) \<and> i \<le> s ! nat (i - 1)})"
proof -
  let ?S = "{i. 1 \<le> i \<and> i \<le> int (length s) \<and> i \<le> s ! nat (i - 1)}"
  from h_loop_props[of s 1] obtain n where n: "n \<le> length s" "h_loop 1 s 0 = int n"
    "\<forall>j<n. 1 + int j \<le> s ! j" "n < length s \<longrightarrow> s ! n < 1 + int n"
    by auto
  have fin: "finite (insert 0 ?S)"
    by (rule finite_subset[of _ "{0..int (length s)}"]) auto
  have mem: "int n \<in> insert 0 ?S"
  proof (cases n)
    case 0 then show ?thesis by simp
  next
    case (Suc m)
    with n(3) have "1 + int m \<le> s ! m" by simp
    with Suc n(1) show ?thesis by simp
  qed
  have ub: "y \<le> int n" if "y \<in> insert 0 ?S" for y
  proof (rule ccontr)
    assume "\<not> y \<le> int n"
    with that have y: "int n < y" "1 \<le> y" "y \<le> int (length s)" "y \<le> s ! nat (y - 1)"
      by auto
    then have lt: "n < length s" and le: "n \<le> nat (y - 1)" and "nat (y - 1) < length s"
      by auto
    with assms have "s ! nat (y - 1) \<le> s ! n" by (intro descending_nth)
    with n(4) lt y show False by simp
  qed
  show ?thesis unfolding n(2) by (rule Max_eqI[symmetric]) (use fin mem ub in auto)
qed

lemma calculate_h_index_loop: "calculate_h_index counts = h_loop 1 (rev (sort counts)) 0"
  by (simp add: calculate_h_index_def sorted_reverse_ints)

lemma calculate_h_index_Max:
  "calculate_h_index counts =
     Max (insert 0 {i. 1 \<le> i \<and> i \<le> int (length counts) \<and> i \<le> rev (sort counts) ! nat (i - 1)})"
proof -
  have "h_loop 1 (rev (sort counts)) 0 =
          Max (insert 0 {i. 1 \<le> i \<and> i \<le> int (length (rev (sort counts)))
                            \<and> i \<le> rev (sort counts) ! nat (i - 1)})"
    by (rule h_loop_Max) (rule descending_rev_sort)
  then show ?thesis
    by (simp add: calculate_h_index_loop)
qed

lemma calculate_h_index_bounds:
  "0 \<le> calculate_h_index counts \<and> calculate_h_index counts \<le> int (length counts)"
proof -
  from h_loop_props[of "rev (sort counts)" 1] obtain n where
    "n \<le> length (rev (sort counts))" "h_loop 1 (rev (sort counts)) 0 = int n"
    by auto
  then show ?thesis
    by (simp add: calculate_h_index_loop)
qed

text \<open>
  C1. For every list of citation counts, \<open>calculate_h_index\<close> returns the largest rank
  \<open>i\<close> (between 1 and the length of the list) such that the \<open>i\<close>-th value of the list
  sorted in descending order is at least \<open>i\<close>, and 0 when there is no such rank, in
  particular for the empty list. The h-index of \<open>[]\<close> is 0, that of \<open>[5,3,3,1]\<close> is 3
  and that of \<open>[10,10,10]\<close> is 3.
\<close>

theorem calculate_h_index_largest_rank:
  "calculate_h_index counts =
     Max (insert 0 {i. 1 \<le> i \<and> i \<le> int (length counts) \<and> i \<le> rev (sort counts) ! nat (i - 1)})
   \<and> calculate_h_index [] = 0
   \<and> calculate_h_index [5, 3, 3, 1] = 3
   \<and> calculate_h_index [10, 10, 10] = 3"
proof -
  have "calculate_h_index [] = 0"
    by (simp add: calculate_h_index_def)
  moreover have "calculate_h_index [5, 3, 3, 1] = 3"
    by (simp add: calculate_h_index_def sorted_reverse_def)
  moreover have "calculate_h_index [10, 10, 10] = 3"
    by (simp add: calculate_h_index_def sorted_reverse_def)
  ultimately show ?thesis
    using calculate_h_index_Max[of counts] by simp
qed

text \<open>
  C9. The h-index does not depend on the order of the counts: two lists that are
  rearrangements of each other (equal as multisets) have the same h-index. The h-index
  lies between 0 and the length of the list.
\<close>

theorem calculate_h_index_permutation_bounds:
  "(mset xs = mset ys \<longrightarrow> calculate_h_index xs = calculate_h_index ys)
   \<and> 0 \<le> calculate_h_index xs
   \<and> calculate_h_index xs \<le> int (length xs)"
proof -
  have "calculate_h_index xs = calculate_h_index ys" if eq: "mset xs = mset ys"
  proof -
    from eq have "sort xs = sort ys"
      by (intro properties_for_sort) simp_all
    then show ?thesis
      by (simp add: calculate_h_index_loop)
  qed
  then show ?thesis
    using calculate_h_index_bounds[of xs] by simp
qed

theorem calculate_h_index_permutation_bounds_witness:
  "mset [1, 5, 3] = mset [5, 3, 1 :: int]
   \<and> calculate_h_index [1, 5, 3] = calculate_h_index [5, 3, 1]
   \<and> calculate_h_index [1, 5, 3] \<le> 3"
proof -
  have eq: "mset [1, 5, 3] = mset [5, 3, 1 :: int]"
    by simp
  with calculate_h_index_permutation_bounds[of "[1, 5, 3]" "[5, 3, 1]"] show ?thesis
    by simp
qed

section \<open>Properties of get_summary_stats\<close>

text \<open>
  C8. On an empty paper set \<open>get_summary_stats\<close> returns \<open>total_papers = 0\<close>,
  \<open>total_citations = 0\<close>, \<open>h_index = 0\<close> and \<open>avg_citations = 0\<close>; the division by
  \<open>total_papers\<close> is guarded, so no paper list makes it fail with a division by zero.
\<close>

theorem get_summary_stats_empty:
  "get_summary_stats period [] =
     Inr \<lparr>stats_total_papers = 0, stats_total_citations = 0, stats_h_index = 0,
          stats_avg_citations = 0, stats_papers_change = 0, stats_citations_change = 0,
          stats_h_index_change = 0\<rparr>
   \<and> get_summary_stats period papers \<noteq> Inl ZeroDivisionError"
proof -
  have "get_summary_stats period [] =
     Inr \<lparr>stats_total_papers = 0, stats_total_citations = 0, stats_h_index = 0,
          stats_avg_citations = 0, stats_papers_change = 0, stats_citations_change = 0,
          stats_h_index_change = 0\<rparr>"
    by (simp add: get_summary_stats_def calculate_h_index_def)
  moreover have "get_summary_stats period papers \<noteq> Inl ZeroDivisionError"
    by (cases papers) (simp_all add: get_summary_stats_def truediv_def Let_def)
  ultimately show ?thesis by simp
qed

section \<open>Properties of get_paper_stats\<close>

lemma find_paper_None:
  "find_paper db i = None \<longleftrightarrow>
     (\<forall>r\<in>set (papers_table db). row_doi r \<noteq> Some i \<and> row_arxiv_id r \<noteq> Some i)"
  by (auto simp: find_paper_def find_None_iff)

lemma get_paper_stats_found:
  "find_paper db i = Some paper \<Longrightarrow> \<exists>s. get_paper_stats db h now i = Inr s"
  by (simp add: get_paper_stats_def Let_def split: prod.splits)

text \<open>
  C5. For an identifier that is neither the DOI nor the arXiv id of a stored paper,
  \<open>get_paper_stats\<close> fails with the not-found error carrying the identifier; for an
  identifier that matches a stored paper it returns statistics, so it does not raise
  that error.
\<close>

theorem get_paper_stats_not_found:
  "((\<forall>r\<in>set (papers_table db). row_doi r \<noteq> Some i \<and> row_arxiv_id r \<noteq> Some i)
      \<longrightarrow> get_paper_stats db h now i = Inl (PaperNotFound i))
   \<and> ((\<exists>r\<in>set (papers_table db). row_doi r = Some i \<or> row_arxiv_id r = Some i)
      \<longrightarrow> (\<exists>s. get_paper_stats db h now i = Inr s))"
proof (intro conjI impI)
  assume "\<forall>r\<in>set (papers_table db). row_doi r \<noteq> Some i \<and> row_arxiv_id r \<noteq> Some i"
  then have "find_paper db i = None" by (simp add: find_paper_None)
  then show "get_paper_stats db h now i = Inl (PaperNotFound i)"
    by (simp add: get_paper_stats_def)
next
  assume "\<exists>r\<in>set (papers_table db). row_doi r = Some i \<or> row_arxiv_id r = Some i"
  then have "find_paper db i \<noteq> None" by (auto simp: find_paper_None)
  then obtain paper where "find_paper db i = Some paper" by auto
  then show "\<exists>s. get_paper_stats db h now i = Inr s" by (rule get_paper_stats_found)
qed

theorem get_paper_stats_not_found_witness:
  "get_paper_stats example_db (get_citation_history example_db example_now) example_now ''10.9999/none''
     = Inl (PaperNotFound ''10.9999/none'')
   \<and> (\<exists>s. get_paper_stats example_db (get_citation_history example_db example_now) example_now
              ''10.1000/x'' = Inr s)"
proof -
  have a: "\<forall>r\<in>set (papers_table example_db).
             row_doi r \<noteq> Some ''10.9999/none'' \<and> row_arxiv_id r \<noteq> Some ''10.9999/none''"
    by (simp add: example_db_def)
  have b: "\<exists>r\<in>set (papers_table example_db).
             row_doi r = Some ''10.1000/x'' \<or> row_arxiv_id r = Some ''10.1000/x''"
    by (simp add: example_db_def)
  from a b
    get_paper_stats_not_found[of example_db "''10.9999/none''"
      "get_citation_history example_db example_now" example_now]
    get_paper_stats_not_found[of example_db "''10.1000/x''"
      "get_citation_history example_db example_now" example_now]
  show ?thesis by blast
qed

subsection \<open>Growth over the three horizons\<close>

lemma Max_insert_max:
  "finite S \<Longrightarrow> Max (insert (max a c) S) = Max (insert a (insert c S))" for a c :: int
  by (cases "S = {}") (simp_all add: max.assoc)

lemma horizon_set_Cons:
  "citation_count ` {r \<in> set (x # h). days_ago now r \<le> k} =
     (if days_ago now x \<le> k
      then insert (citation_count x) (citation_count ` {r \<in> set h. days_ago now r \<le> k})
      else citation_count ` {r \<in> set h. days_ago now r \<le> k})"
  by auto

lemma growth_loop_Max:
  "growth_loop now h (a, b, c) =
     (Max (insert a (citation_count ` {r \<in> set h. days_ago now r \<le> 7})),
      Max (insert b (citation_count ` {r \<in> set h. days_ago now r \<le> 30})),
      Max (insert c (citation_count ` {r \<in> set h. days_ago now r \<le> 365})))"
proof (induction h arbitrary: a b c)
  case Nil
  then show ?case by simp
next
  case (Cons x h)
  show ?case
    unfolding growth_loop.simps Let_def Cons.IH horizon_set_Cons
    by (simp add: Max_insert_max)
qed

lemma growth_loop_horizon_max:
  "growth_loop now h (0, 0, 0) =
     (horizon_max now h 7, horizon_max now h 30, horizon_max now h 365)"
  by (simp add: growth_loop_Max horizon_max_def)

lemma sql_max_ge: "x \<in> set xs \<Longrightarrow> \<exists>m. sql_max xs = Some m \<and> x \<le> m"
  by (induction xs) (auto split: option.splits)

lemma current_citations_ge:
  assumes "r \<in> set (citations_table db)" "cit_paper_id r = pid" "0 < cit_citation_count r"
  shows "cit_citation_count r \<le> current_citations db pid"
proof -
  from assms have "cit_citation_count r \<in>
      set (map cit_citation_count (filter (\<lambda>r. cit_paper_id r = pid) (citations_table db)))"
    by auto
  from sql_max_ge[OF this] obtain m where
    "sql_max (map cit_citation_count (filter (\<lambda>r. cit_paper_id r = pid) (citations_table db)))
       = Some m" "cit_citation_count r \<le> m"
    by auto
  with assms(3) show ?thesis by (simp add: current_citations_def)
qed

lemma horizon_max_cases:
  "horizon_max now h k = 0 \<or> (\<exists>r\<in>set h. days_ago now r \<le> k \<and> horizon_max now h k = citation_count r \<and> 0 < citation_count r)"
proof -
  let ?S = "insert 0 (citation_count ` {r \<in> set h. days_ago now r \<le> k})"
  have "finite ?S" "?S \<noteq> {}" by auto
  then have mem: "Max ?S \<in> ?S" by (rule Max_in)
  have "0 \<le> Max ?S" by (rule Max_ge) auto
  with mem show ?thesis unfolding horizon_max_def by force
qed

lemma growth_nonneg:
  assumes sub: "\<forall>r\<in>set h. \<exists>c\<in>set (citations_table db).
                  cit_paper_id c = pid \<and> cit_citation_count c = citation_count r"
  shows "0 \<le> (if horizon_max now h k \<noteq> 0 then current_citations db pid - horizon_max now h k else 0)"
proof (cases "horizon_max now h k = 0")
  case True
  then show ?thesis by simp
next
  case False
  with horizon_max_cases[of now h k] obtain r where r: "r \<in> set h"
    "horizon_max now h k = citation_count r" "0 < citation_count r"
    by auto
  with sub obtain c where "c \<in> set (citations_table db)" "cit_paper_id c = pid"
    "cit_citation_count c = citation_count r"
    by auto
  with r current_citations_ge[of c db pid] show ?thesis by simp
qed

text \<open>
  C2 (as amended). For a paper found by identifier, with \<open>history\<close> the citation
  history the storage layer returns for it, the growth reported for each horizon (7, 30,
  365 days) is the current citation count minus the largest count among the history
  records at most that many days old when that largest count is not 0, and 0 when it is 0
  (no record within the horizon, or only records with count 0). No negative value is
  clamped; when every history record is one of the paper's stored citation records the
  growth is never negative, because the current count is the maximum over all of them.
\<close>

theorem get_paper_stats_growth:
  assumes "find_paper db identifier = Some paper"
    and "history = history_of (row_id paper) 365"
  shows "\<exists>s. get_paper_stats db history_of now identifier = Inr s
     \<and> ps_citations s = current_citations db (row_id paper)
     \<and> ps_citations_7d s =
         (if horizon_max now history 7 \<noteq> 0 then ps_citations s - horizon_max now history 7 else 0)
     \<and> ps_citations_30d s =
         (if horizon_max now history 30 \<noteq> 0 then ps_citations s - horizon_max now history 30 else 0)
     \<and> ps_citations_1y s =
         (if horizon_max now history 365 \<noteq> 0 then ps_citations s - horizon_max now history 365 else 0)
     \<and> ((\<forall>r\<in>set history. \<exists>c\<in>set (citations_table db).
            cit_paper_id c = row_id paper \<and> cit_citation_count c = citation_count r)
          \<longrightarrow> 0 \<le> ps_citations_7d s \<and> 0 \<le> ps_citations_30d s \<and> 0 \<le> ps_citations_1y s)"
proof -
  let ?s = "\<lparr>ps_title = row_title paper,
             ps_doi = row_doi paper,
             ps_arxiv_id = row_arxiv_id paper,
             ps_year = row_year paper,
             ps_venue = row_venue paper,
             ps_citations = current_citations db (row_id paper),
             ps_citations_7d = (if horizon_max now history 7 \<noteq> 0
                then current_citations db (row_id paper) - horizon_max now history 7 else 0),
             ps_citations_30d = (if horizon_max now history 30 \<noteq> 0
                then current_citations db (row_id paper) - horizon_max now history 30 else 0),
             ps_citations_1y = (if horizon_max now history 365 \<noteq> 0
                then current_citations db (row_id paper) - horizon_max now history 365 else 0)\<rparr>"
  have eq: "get_paper_stats db history_of now identifier = Inr ?s"
    using assms by (simp add: get_paper_stats_def growth_loop_horizon_max Let_def)
  have nn: "0 \<le> ps_citations_7d ?s \<and> 0 \<le> ps_citations_30d ?s \<and> 0 \<le> ps_citations_1y ?s"
    if "\<forall>r\<in>set history. \<exists>c\<in>set (citations_table db).
            cit_paper_id c = row_id paper \<and> cit_citation_count c = citation_count r"
    using growth_nonneg[OF that, of now 7] growth_nonneg[OF that, of now 30]
      growth_nonneg[OF that, of now 365]
    by simp
  show ?thesis
    by (rule exI[of _ ?s]) (use eq nn in simp)
qed

lemma example_history:
  "get_citation_history example_db example_now 1 365 =
     [\<lparr>timestamp = 380 * usec_per_day, citation_count = 5\<rparr>,
      \<lparr>timestamp = 399 * usec_per_day, citation_count = 0\<rparr>]"
  by (simp add: get_citation_history_def example_db_def example_now_def usec_per_day_def)

lemma example_find:
  "find_paper example_db ''10.1000/x'' =
     Some \<lparr>row_id = 1, row_title = ''Paper'', row_doi = Some ''10.1000/x'', row_arxiv_id = None,
          row_year = Some 2020, row_venue = None\<rparr>"
  by (simp add: find_paper_def example_db_def)

lemma example_stats:
  "get_paper_stats example_db (get_citation_history example_db example_now) example_now ''10.1000/x''
     = Inr \<lparr>ps_title = ''Paper'', ps_doi = Some ''10.1000/x'', ps_arxiv_id = None,
            ps_year = Some 2020, ps_venue = None, ps_citations = 5,
            ps_citations_7d = 0, ps_citations_30d = 0, ps_citations_1y = 0\<rparr>"
proof -
  have loop: "growth_loop example_now (get_citation_history example_db example_now 1 365) (0, 0, 0)
                = (0, 5, 5)"
    unfolding example_history
    by (simp add: days_ago_def example_now_def usec_per_day_def)
  have cur: "current_citations example_db 1 = 5"
    by (simp add: current_citations_def example_db_def)
  show ?thesis
    by (simp add: get_paper_stats_def example_find loop cur)
qed

text \<open>
  The claim as stated (growth = current count minus the maximum count observed within the
  horizon, 0 when that is negative) fails on the example database: within 7 days the only
  record has count 0, the current count is 5, the stated growth is 5 and the reported
  growth is 0.
\<close>

theorem get_paper_stats_growth_counterexample:
  "get_paper_stats example_db (get_citation_history example_db example_now) example_now ''10.1000/x''
     = Inr \<lparr>ps_title = ''Paper'', ps_doi = Some ''10.1000/x'', ps_arxiv_id = None,
            ps_year = Some 2020, ps_venue = None, ps_citations = 5,
            ps_citations_7d = 0, ps_citations_30d = 0, ps_citations_1y = 0\<rparr>
   \<and> spec_growth example_now 5 (get_citation_history example_db example_now 1 365) 7 = 5"
proof -
  have "citation_count ` {r \<in> set (get_citation_history example_db example_now 1 365).
          days_ago example_now r \<le> 7} = {0}"
    unfolding example_history horizon_set_Cons
    by (simp add: days_ago_def example_now_def usec_per_day_def)
  then have "spec_growth example_now 5 (get_citation_history example_db example_now 1 365) 7 = 5"
    by (simp add: spec_growth_def)
  with example_stats show ?thesis by simp
qed

theorem get_paper_stats_growth_witness:
  "\<exists>s. get_paper_stats example_db (get_citation_history example_db example_now) example_now
          ''10.1000/x'' = Inr s
     \<and> ps_citations s = 5 \<and> ps_citations_7d s = 0 \<and> ps_citations_30d s = 0
     \<and> 0 \<le> ps_citations_1y s"
proof -
  have sub: "\<forall>r\<in>set (get_citation_history example_db example_now 1 365).
        \<exists>c\<in>set (citations_table example_db).
            cit_paper_id c = 1 \<and> cit_citation_count c = citation_count r"
    by (simp add: example_history) (simp add: example_db_def)
  have h7: "horizon_max example_now (get_citation_history example_db example_now 1 365) 7 = 0"
    unfolding horizon_max_def example_history horizon_set_Cons
    by (simp add: days_ago_def example_now_def usec_per_day_def)
  have h30: "horizon_max example_now (get_citation_history example_db example_now 1 365) 30 = 5"
    unfolding horizon_max_def example_history horizon_set_Cons
    by (simp add: days_ago_def example_now_def usec_per_day_def)
  have cur: "current_citations example_db 1 = 5"
    by (simp add: current_citations_def example_db_def)
  from get_paper_stats_growth[OF example_find, of "get_citation_history example_db example_now 1 365"
      "get_citation_history example_db example_now" example_now]
  show ?thesis using sub h7 h30 cur by auto
qed

section \<open>Properties of get_citation_trends\<close>

lemma map_of_by_year_add:
  "map_of (by_year_add d y c) =
     (map_of d)(y \<mapsto>
        \<lparr>bucket_papers = (case map_of d y of None \<Rightarrow> 0 | Some b \<Rightarrow> bucket_papers b) + 1,
         bucket_citations = (case map_of d y of None \<Rightarrow> 0 | Some b \<Rightarrow> bucket_citations b) + c\<rparr>)"
  by (simp add: by_year_add_def update_conv' split: option.splits)

lemma distinct_by_year_add:
  "distinct (map fst d) \<Longrightarrow> distinct (map fst (by_year_add d y c))"
  by (simp add: by_year_add_def Let_def distinct_update)

lemma sum_list_update:
  "sum_list (map (\<lambda>e. f (snd e)) (AList.update k v d)) =
     sum_list (map (\<lambda>e. f (snd e)) d) - (case map_of d k of None \<Rightarrow> 0 | Some b \<Rightarrow> f b) + f v"
  for f :: "'b \<Rightarrow> int"
  by (induction d) auto

lemma sum_citations_by_year_add:
  "sum_list (map (\<lambda>e. bucket_citations (snd e)) (by_year_add d y c)) =
     sum_list (map (\<lambda>e. bucket_citations (snd e)) d) + c"
  by (simp add: by_year_add_def sum_list_update split: option.splits)

lemma sum_papers_by_year_add:
  "sum_list (map (\<lambda>e. bucket_papers (snd e)) (by_year_add d y c)) =
     sum_list (map (\<lambda>e. bucket_papers (snd e)) d) + 1"
  by (simp add: by_year_add_def sum_list_update split: option.splits)

lemma filter_year_empty:
  "Val y \<notin> year ` set ps \<Longrightarrow> filter (\<lambda>p. year p = Val y) ps = []"
  by (induction ps) auto

lemma trends_loop_Cons:
  "trends_loop (p # rest) d =
     (if truthy (get (year p))
      then trends_loop rest (by_year_add d (the (get (year p))) (citations p))
      else trends_loop rest d)"
  by (cases "year p") auto

lemma trends_loop_distinct:
  "distinct (map fst d) \<Longrightarrow> distinct (map fst (trends_loop ps d))"
  by (induction ps arbitrary: d) (auto simp: distinct_by_year_add split: option.splits)

lemma trends_loop_sum_citations:
  "sum_list (map (\<lambda>e. bucket_citations (snd e)) (trends_loop ps d)) =
     sum_list (map (\<lambda>e. bucket_citations (snd e)) d)
       + sum_list (map citations (filter (\<lambda>p. truthy (get (year p))) ps))"
proof (induction ps arbitrary: d)
  case Nil
  then show ?case by simp
next
  case (Cons p ps)
  show ?case
    unfolding trends_loop_Cons
    by (simp add: Cons.IH sum_citations_by_year_add)
qed

lemma trends_loop_sum_papers:
  "sum_list (map (\<lambda>e. bucket_papers (snd e)) (trends_loop ps d)) =
     sum_list (map (\<lambda>e. bucket_papers (snd e)) d)
       + int (length (filter (\<lambda>p. truthy (get (year p))) ps))"
proof (induction ps arbitrary: d)
  case Nil
  then show ?case by simp
next
  case (Cons p ps)
  show ?case
    unfolding trends_loop_Cons
    by (simp add: Cons.IH sum_papers_by_year_add)
qed

lemma trends_loop_map_of:
  "map_of (trends_loop ps d) y =
     (if y \<noteq> 0 \<and> Val y \<in> year ` set ps
      then Some \<lparr>bucket_papers =
                   (case map_of d y of None \<Rightarrow> 0 | Some b \<Rightarrow> bucket_papers b)
                     + int (length (filter (\<lambda>p. year p = Val y) ps)),
                 bucket_citations =
                   (case map_of d y of None \<Rightarrow> 0 | Some b \<Rightarrow> bucket_citations b)
                     + sum_list (map citations (filter (\<lambda>p. year p = Val y) ps))\<rparr>
      else map_of d y)"
proof (induction ps arbitrary: d)
  case Nil
  then show ?case by simp
next
  case (Cons p ps)
  show ?case
  proof (cases "year p")
    case Missing
    then show ?thesis by (simp add: Cons.IH)
  next
    case Null
    then show ?thesis by (simp add: Cons.IH)
  next
    case (Val z)
    show ?thesis
    proof (cases "z = 0")
      case True
      with Val show ?thesis by (auto simp: Cons.IH)
    next
      case False
      with Val show ?thesis
        by (auto simp: Cons.IH map_of_by_year_add filter_year_empty split: option.splits)
    qed
  qed
qed

lemma sum_split_truthy:
  "sum_list (map citations ps) =
     sum_list (map citations (filter (\<lambda>p. truthy (get (year p))) ps))
       + sum_list (map citations (filter (\<lambda>p. \<not> truthy (get (year p))) ps))"
  by (induction ps) auto

lemma sum_list_nonneg_filter:
  "\<forall>p\<in>set ps. Q p \<longrightarrow> 0 \<le> f p \<Longrightarrow> 0 \<le> sum_list (map f (filter Q ps))" for f :: "'a \<Rightarrow> int"
  by (induction ps) auto

lemma sum_list_pos_filter:
  "\<forall>p\<in>set ps. Q p \<longrightarrow> 0 \<le> f p \<Longrightarrow> \<exists>p\<in>set ps. Q p \<and> 0 < f p
     \<Longrightarrow> 0 < sum_list (map f (filter Q ps))" for f :: "'a \<Rightarrow> int"
proof (induction ps)
  case Nil
  then show ?case by simp
next
  case (Cons p ps)
  have nn: "0 \<le> sum_list (map f (filter Q ps))"
    using Cons.prems(1) by (intro sum_list_nonneg_filter) simp
  show ?case
  proof (cases "Q p \<and> 0 < f p")
    case True
    with nn show ?thesis by simp
  next
    case False
    with Cons.prems have "\<exists>p\<in>set ps. Q p \<and> 0 < f p" by auto
    with Cons.IH Cons.prems(1) have "0 < sum_list (map f (filter Q ps))" by simp
    with Cons.prems(1) show ?thesis by auto
  qed
qed

text \<open>
  C7. \<open>get_citation_trends\<close> groups the papers by publication year: the bucket of a
  year holds the number of papers published that year and the sum of their citations, a
  year without papers has no bucket, and every year has at most one bucket. For the papers
  \<open>[{year:2020,citations:5},{year:2020,citations:3},{year:2021,citations:1}]\<close> the result
  has \<open>by_year[2020] = {papers:2,citations:8}\<close> and \<open>by_year[2021] = {papers:1,citations:1}\<close>.
\<close>

theorem get_citation_trends_by_year:
  "map_of (by_year (get_citation_trends papers)) y =
     (if y \<noteq> 0 \<and> Val y \<in> year ` set papers
      then Some \<lparr>bucket_papers = int (length (filter (\<lambda>p. year p = Val y) papers)),
                 bucket_citations = sum_list (map citations (filter (\<lambda>p. year p = Val y) papers))\<rparr>
      else None)
   \<and> distinct (map fst (by_year (get_citation_trends papers)))
   \<and> by_year (get_citation_trends
        [\<lparr>title = t1, citations = 5, year = Val 2020, doi = d1, venue = v1\<rparr>,
         \<lparr>title = t2, citations = 3, year = Val 2020, doi = d2, venue = v2\<rparr>,
         \<lparr>title = t3, citations = 1, year = Val 2021, doi = d3, venue = v3\<rparr>])
      = [(2020, \<lparr>bucket_papers = 2, bucket_citations = 8\<rparr>),
         (2021, \<lparr>bucket_papers = 1, bucket_citations = 1\<rparr>)]"
proof (intro conjI)
  show "map_of (by_year (get_citation_trends papers)) y =
     (if y \<noteq> 0 \<and> Val y \<in> year ` set papers
      then Some \<lparr>bucket_papers = int (length (filter (\<lambda>p. year p = Val y) papers)),
                 bucket_citations = sum_list (map citations (filter (\<lambda>p. year p = Val y) papers))\<rparr>
      else None)"
    by (simp add: get_citation_trends_def trends_loop_map_of)
  show "distinct (map fst (by_year (get_citation_trends papers)))"
    by (simp add: get_citation_trends_def trends_loop_distinct)
  show "by_year (get_citation_trends
        [\<lparr>title = t1, citations = 5, year = Val 2020, doi = d1, venue = v1\<rparr>,
         \<lparr>title = t2, citations = 3, year = Val 2020, doi = d2, venue = v2\<rparr>,
         \<lparr>title = t3, citations = 1, year = Val 2021, doi = d3, venue = v3\<rparr>])
      = [(2020, \<lparr>bucket_papers = 2, bucket_citations = 8\<rparr>),
         (2021, \<lparr>bucket_papers = 1, bucket_citations = 1\<rparr>)]"
    by (simp add: get_citation_trends_def by_year_add_def)
qed

text \<open>
  C10. A paper whose year is missing, null or zero is counted in \<open>total_papers\<close> and
  \<open>total_citations\<close> but in no \<open>by_year\<close> bucket: the buckets count exactly the papers
  with a non-zero year, and the citations of the buckets plus the citations of the papers
  without a year add up to \<open>total_citations\<close>. Hence, citation counts being
  non-negative, the sum of the buckets' citations is at most \<open>total_citations\<close>, and
  strictly less when a paper without a year has a positive citation count.
\<close>

theorem get_citation_trends_yearless:
  "trends_total_papers (get_citation_trends papers) = int (length papers)
   \<and> trends_total_citations (get_citation_trends papers) = sum_list (map citations papers)
   \<and> sum_list (map (\<lambda>e. bucket_papers (snd e)) (by_year (get_citation_trends papers)))
       = int (length (filter (\<lambda>p. truthy (get (year p))) papers))
   \<and> sum_list (map (\<lambda>e. bucket_citations (snd e)) (by_year (get_citation_trends papers)))
       + sum_list (map citations (filter (\<lambda>p. \<not> truthy (get (year p))) papers))
       = trends_total_citations (get_citation_trends papers)
   \<and> ((\<forall>p\<in>set papers. \<not> truthy (get (year p)) \<longrightarrow> 0 \<le> citations p) \<longrightarrow>
        sum_list (map (\<lambda>e. bucket_citations (snd e)) (by_year (get_citation_trends papers)))
          \<le> trends_total_citations (get_citation_trends papers)
        \<and> ((\<exists>p\<in>set papers. \<not> truthy (get (year p)) \<and> 0 < citations p) \<longrightarrow>
             sum_list (map (\<lambda>e. bucket_citations (snd e)) (by_year (get_citation_trends papers)))
               < trends_total_citations (get_citation_trends papers)))"
proof -
  let ?t = "get_citation_trends papers"
  let ?by = "sum_list (map (\<lambda>e. bucket_citations (snd e)) (by_year ?t))"
  let ?rest = "sum_list (map citations (filter (\<lambda>p. \<not> truthy (get (year p))) papers))"
  have tp: "trends_total_papers ?t = int (length papers)"
    and tc: "trends_total_citations ?t = sum_list (map citations papers)"
    by (simp_all add: get_citation_trends_def)
  have bp: "sum_list (map (\<lambda>e. bucket_papers (snd e)) (by_year ?t))
              = int (length (filter (\<lambda>p. truthy (get (year p))) papers))"
    by (simp add: get_citation_trends_def trends_loop_sum_papers)
  have "?by = sum_list (map citations (filter (\<lambda>p. truthy (get (year p))) papers))"
    by (simp add: get_citation_trends_def trends_loop_sum_citations)
  with sum_split_truthy[of papers] tc have split: "?by + ?rest = trends_total_citations ?t"
    by simp
  have le: "?by \<le> trends_total_citations ?t"
    if "\<forall>p\<in>set papers. \<not> truthy (get (year p)) \<longrightarrow> 0 \<le> citations p"
    using sum_list_nonneg_filter[OF that] split by simp
  have lt: "?by < trends_total_citations ?t"
    if "\<forall>p\<in>set papers. \<not> truthy (get (year p)) \<longrightarrow> 0 \<le> citations p"
      and "\<exists>p\<in>set papers. \<not> truthy (get (year p)) \<and> 0 < citations p"
    using sum_list_pos_filter[OF that] split by simp
  from tp tc bp split le lt show ?thesis by blast
qed

theorem get_citation_trends_yearless_witness:
  "0 \<le> citations \<lparr>title = ''A'', citations = 4, year = Null, doi = Null, venue = Null\<rparr>
   \<and> sum_list (map (\<lambda>e. bucket_citations (snd e)) (by_year (get_citation_trends
        [\<lparr>title = ''A'', citations = 4, year = Null, doi = Null, venue = Null\<rparr>,
         \<lparr>title = ''B'', citations = 2, year = Val 2021, doi = Null, venue = Null\<rparr>])))
       < trends_total_citations (get_citation_trends
        [\<lparr>title = ''A'', citations = 4, year = Null, doi = Null, venue = Null\<rparr>,
         \<lparr>title = ''B'', citations = 2, year = Val 2021, doi = Null, venue = Null\<rparr>])"
proof -
  let ?ps = "[\<lparr>title = ''A'', citations = 4, year = Null, doi = Null, venue = Null\<rparr>,
         \<lparr>title = ''B'', citations = 2, year = Val 2021, doi = Null, venue = Null\<rparr>]"
  have a: "\<forall>p\<in>set ?ps. \<not> truthy (get (year p)) \<longrightarrow> 0 \<le> citations p"
    by simp
  have b: "\<exists>p\<in>set ?ps. \<not> truthy (get (year p)) \<and> 0 < citations p"
    by simp
  from get_citation_trends_yearless[of ?ps] a b show ?thesis
    by simp
qed

section \<open>Properties of the descending stable sort\<close>

lemma sorted_reverse_sorted:
  "sorted_wrt (\<lambda>a b. key b \<le> key a) (sorted_reverse key xs)"
proof -
  have "sorted_wrt (\<lambda>a b. key a \<le> key b) (sort_key key (rev xs))"
    using sorted_sort_key[of key "rev xs"] by (simp add: sorted_map)
  then show ?thesis
    by (simp add: sorted_reverse_def sorted_wrt_rev)
qed

lemma sorted_reverse_stable:
  "filter (\<lambda>x. key x = k) (sorted_reverse key xs) = filter (\<lambda>x. key x = k) xs"
proof -
  have "filter (\<lambda>x. key x = k) (sorted_reverse key xs) =
          rev (filter (\<lambda>x. key x = k) (sort_key key (rev xs)))"
    by (simp add: sorted_reverse_def rev_filter)
  also have "\<dots> = rev (filter (\<lambda>x. key x = k) (rev xs))"
    by (simp only: sort_key_stable)
  also have "\<dots> = filter (\<lambda>x. key x = k) xs"
    by (simp add: rev_filter)
  finally show ?thesis .
qed

lemma mset_sorted_reverse: "mset (sorted_reverse key xs) = mset xs"
  by (simp add: sorted_reverse_def)

lemma set_sorted_reverse: "set (sorted_reverse key xs) = set xs"
  by (simp add: sorted_reverse_def)

lemma length_sorted_reverse: "length (sorted_reverse key xs) = length xs"
  by (simp add: sorted_reverse_def)

section \<open>Properties of get_top_papers\<close>

lemma slice_to_prefix: "prefix (slice_to xs limit) xs"
  by (simp add: slice_to_def take_is_prefix)

lemma length_slice_to: "0 \<le> limit \<Longrightarrow> int (length (slice_to xs limit)) \<le> limit"
  by (simp add: slice_to_def)

lemma comprehension_total:
  "\<forall>x\<in>set xs. f x = Inr (g x) \<Longrightarrow> comprehension f xs = Inr (map g xs)"
  by (induction xs) auto

lemma top_entry_of_present:
  "year p \<noteq> Missing \<Longrightarrow>
     top_entry_of p = Inr \<lparr>top_title = title p, top_citations = citations p,
                          top_year = get (year p), top_doi = get (doi p),
                          top_venue = get (venue p)\<rparr>"
  by (cases "year p") (simp_all add: top_entry_of_def)

text \<open>
  C4 (as amended). For every paper list whose entries all carry a \<open>year\<close> key (its
  value may be null) and every limit, \<open>get_top_papers\<close> returns the entries of a list
  \<open>top\<close> of papers that is sorted non-increasing by citation count and in which, for each
  citation count, the papers with that count are an initial part of the input's papers
  with that count, in the input's order (the sort is stable); when the limit is not
  negative, at most \<open>limit\<close> entries are returned.
\<close>

theorem get_top_papers_sorted_stable:
  assumes "\<forall>p\<in>set papers. year p \<noteq> Missing"
  shows "\<exists>r top. get_top_papers papers limit = Inr r
     \<and> r = map (\<lambda>p. \<lparr>top_title = title p, top_citations = citations p,
                       top_year = get (year p), top_doi = get (doi p),
                       top_venue = get (venue p)\<rparr>) top
     \<and> (0 \<le> limit \<longrightarrow> int (length r) \<le> limit)
     \<and> sorted_wrt (\<lambda>a b. top_citations b \<le> top_citations a) r
     \<and> (\<forall>c. prefix (filter (\<lambda>p. citations p = c) top) (filter (\<lambda>p. citations p = c) papers))"
proof -
  let ?entry = "\<lambda>p. \<lparr>top_title = title p, top_citations = citations p,
                       top_year = get (year p), top_doi = get (doi p),
                       top_venue = get (venue p)\<rparr>"
  let ?s = "sorted_reverse citations papers"
  let ?top = "slice_to ?s limit"
  have pre: "prefix ?top ?s" by (rule slice_to_prefix)
  then have sub: "set ?top \<subseteq> set papers"
    using set_mono_prefix[OF pre] by (simp add: set_sorted_reverse)
  with assms have "\<forall>p\<in>set ?top. top_entry_of p = Inr (?entry p)"
    by (auto intro: top_entry_of_present)
  then have res: "get_top_papers papers limit = Inr (map ?entry ?top)"
    unfolding get_top_papers_def Let_def by (rule comprehension_total)
  have len: "0 \<le> limit \<longrightarrow> int (length (map ?entry ?top)) \<le> limit"
    by (simp add: length_slice_to)
  from pre obtain zs where zs: "?s = ?top @ zs" by (auto simp: prefix_def)
  have "sorted_wrt (\<lambda>a b. citations b \<le> citations a) ?s" by (rule sorted_reverse_sorted)
  then have "sorted_wrt (\<lambda>a b. citations b \<le> citations a) ?top"
    by (subst (asm) zs) (simp add: sorted_wrt_append)
  then have srt: "sorted_wrt (\<lambda>a b. top_citations b \<le> top_citations a) (map ?entry ?top)"
    by (simp add: sorted_wrt_map)
  have stab: "prefix (filter (\<lambda>p. citations p = c) ?top) (filter (\<lambda>p. citations p = c) papers)" for c
    using filter_mono_prefix[OF pre, of "\<lambda>p. citations p = c"]
    by (simp add: sorted_reverse_stable)
  from res len srt stab show ?thesis by blast
qed

lemma example_top:
  "get_top_papers example_top_papers 2
   = Inr [\<lparr>top_title = ''B'', top_citations = 5, top_year = None, top_doi = None,
           top_venue = Some ''V''\<rparr>,
          \<lparr>top_title = ''A'', top_citations = 2, top_year = Some 2020, top_doi = None,
           top_venue = None\<rparr>]"
  by (simp add: get_top_papers_def example_top_papers_def sorted_reverse_def slice_to_def
      top_entry_of_def)

theorem get_top_papers_sorted_stable_witness:
  "get_top_papers example_top_papers 2
     = Inr [\<lparr>top_title = ''B'', top_citations = 5, top_year = None, top_doi = None,
             top_venue = Some ''V''\<rparr>,
            \<lparr>top_title = ''A'', top_citations = 2, top_year = Some 2020, top_doi = None,
             top_venue = None\<rparr>]
   \<and> (\<exists>r. get_top_papers example_top_papers 2 = Inr r \<and> int (length r) \<le> 2
          \<and> sorted_wrt (\<lambda>a b. top_citations b \<le> top_citations a) r)"
proof -
  have present: "\<forall>p\<in>set example_top_papers. year p \<noteq> Missing"
    by (simp add: example_top_papers_def)
  from get_top_papers_sorted_stable[OF present, of 2] example_top show ?thesis
    by auto
qed

text \<open>
  The claim as stated fails for a negative limit, which the slice reads from the end of the
  list: with two papers and limit \<open>-1\<close> one entry is returned, more than the limit. A
  paper without a \<open>year\<close> key makes the call fail with a key error instead of returning
  a list.
\<close>

theorem get_top_papers_counterexample:
  "get_top_papers
     [\<lparr>title = ''A'', citations = 2, year = Val 2020, doi = Null, venue = Null\<rparr>,
      \<lparr>title = ''B'', citations = 5, year = Val 2021, doi = Null, venue = Null\<rparr>] (- 1)
   = Inr [\<lparr>top_title = ''B'', top_citations = 5, top_year = Some 2021, top_doi = None, top_venue = None\<rparr>]
   \<and> \<not> int (length [\<lparr>top_title = ''B'', top_citations = 5, top_year = Some 2021,
                       top_doi = None, top_venue = None\<rparr>]) \<le> - 1
   \<and> get_top_papers [\<lparr>title = ''A'', citations = 2, year = Missing, doi = Null, venue = Null\<rparr>] 10
       = Inl (KeyError ''year'')"
  by (simp add: get_top_papers_def sorted_reverse_def slice_to_def top_entry_of_def)

section \<open>Properties of identify_low_visibility_papers\<close>

lemma estimate_potential_nonneg:
  assumes "estimate_potential now_year p = Inr s"
  shows "0 \<le> s"
proof -
  from assms obtain v where v: "get_default (venue p) [] = Some v"
    by (auto simp: estimate_potential_def split: option.splits)
  define score1 :: rat where "score1 =
     (if list_ex (\<lambda>t. contains t (lower v)) [''nature'', ''science'', ''cell'', ''lancet'', ''pnas'']
      then 0 + 10
      else if list_ex (\<lambda>t. contains t (lower v)) [''ieee'', ''acm'', ''springer'']
      then 0 + 5 else 0)"
  define score2 :: rat where "score2 =
     (case get (year p) of
        Some y \<Rightarrow>
          if y \<noteq> 0
          then (let age = now_year - y
                in if age < 3 then score1 + of_int (3 - age) * 2 else score1)
          else score1
      | None \<Rightarrow> score1)"
  define score3 :: rat where "score3 =
     (if citations p > 0 then score2 + of_int (min (citations p) 10) * (1 / 2) else score2)"
  have "estimate_potential now_year p = Inr score3"
    unfolding estimate_potential_def v score3_def score2_def score1_def Let_def option.case
    by (rule refl)
  with assms have s: "s = score3" by simp
  have 1: "0 \<le> score1" by (simp add: score1_def)
  have 2: "score1 \<le> score2"
    by (simp add: score2_def Let_def split: option.splits)
  have 3: "score2 \<le> score3"
    by (simp add: score3_def)
  from 1 2 3 s show ?thesis by simp
qed

lemma low_visibility_loop_entries:
  "low_visibility_loop now_year threshold ps = Inr es \<Longrightarrow> e \<in> set es \<Longrightarrow>
     \<exists>p\<in>set ps. year p = Val (lv_year e) \<and> lv_age e = now_year - lv_year e
        \<and> 1 \<le> lv_age e \<and> lv_citations e = citations p \<and> lv_citations e < threshold
        \<and> lv_title e = title p \<and> lv_doi e = get (doi p)
        \<and> estimate_potential now_year p = Inr (lv_potential e)"
proof (induction ps arbitrary: es)
  case Nil
  then show ?case by simp
next
  case (Cons p ps)
  show ?case
  proof (cases "year p")
    case Missing
    with Cons show ?thesis by auto
  next
    case Null
    with Cons show ?thesis by auto
  next
    case (Val y)
    show ?thesis
    proof (cases "y \<noteq> 0 \<and> now_year - y \<ge> 1 \<and> citations p < threshold")
      case False
      with Val Cons show ?thesis by auto
    next
      case True
      with Val Cons.prems(1) obtain pot es' where
        pot: "estimate_potential now_year p = Inr pot"
        and es': "low_visibility_loop now_year threshold ps = Inr es'"
        and es: "es = \<lparr>lv_title = title p, lv_year = y, lv_citations = citations p,
                        lv_age = now_year - y, lv_doi = get (doi p), lv_potential = pot\<rparr> # es'"
        by (auto split: sum.splits)
      show ?thesis
      proof (cases "e \<in> set es'")
        case True
        from Cons.IH[OF es' True] show ?thesis by auto
      next
        case False
        with Cons.prems(2) es have "e = \<lparr>lv_title = title p, lv_year = y,
            lv_citations = citations p, lv_age = now_year - y, lv_doi = get (doi p),
            lv_potential = pot\<rparr>"
          by simp
        with Val True pot show ?thesis by simp
      qed
    qed
  qed
qed

lemma low_visibility_loop_length:
  "low_visibility_loop now_year threshold ps = Inr es \<Longrightarrow>
     length es = length (filter (\<lambda>p. case get (year p) of None \<Rightarrow> False
        | Some y \<Rightarrow> y \<noteq> 0 \<and> 1 \<le> now_year - y \<and> citations p < threshold) ps)"
proof (induction ps arbitrary: es)
  case Nil
  then show ?case by simp
next
  case (Cons p ps)
  then show ?case
    by (cases "year p") (auto split: sum.splits if_splits)
qed

lemma estimate_potential_total:
  "venue p \<noteq> Null \<Longrightarrow> \<exists>s. estimate_potential now_year p = Inr s"
  by (cases "venue p") (simp_all add: estimate_potential_def Let_def)

lemma low_visibility_loop_total:
  "\<forall>p\<in>set ps. venue p \<noteq> Null \<Longrightarrow> \<exists>es. low_visibility_loop now_year threshold ps = Inr es"
proof (induction ps)
  case Nil
  then show ?case by simp
next
  case (Cons p ps)
  then obtain es where es: "low_visibility_loop now_year threshold ps = Inr es" by auto
  from Cons.prems obtain s where s: "estimate_potential now_year p = Inr s"
    using estimate_potential_total[of p now_year] by auto
  show ?case
    by (cases "year p") (simp_all add: es s)
qed

text \<open>
  C6. Whenever \<open>identify_low_visibility_papers\<close> returns a list, every entry of it comes
  from a paper at least one year old (current year minus publication year) whose citations
  are below the threshold, so papers younger than one year are excluded whatever their
  citation count; every potential is non-negative; the list is sorted non-increasing by
  potential; and it has one entry for each such paper. It does return a list when no paper
  has a null venue.
\<close>

theorem identify_low_visibility_papers_entries:
  "(identify_low_visibility_papers now_year papers threshold = Inr res \<longrightarrow>
      (\<forall>e\<in>set res.
          1 \<le> lv_age e \<and> lv_citations e < threshold \<and> 0 \<le> lv_potential e
          \<and> (\<exists>p\<in>set papers. year p = Val (lv_year e) \<and> lv_age e = now_year - lv_year e
                \<and> citations p = lv_citations e \<and> title p = lv_title e
                \<and> estimate_potential now_year p = Inr (lv_potential e)))
      \<and> sorted_wrt (\<lambda>a b. lv_potential b \<le> lv_potential a) res
      \<and> length res = length (filter (\<lambda>p. case get (year p) of None \<Rightarrow> False
            | Some y \<Rightarrow> y \<noteq> 0 \<and> 1 \<le> now_year - y \<and> citations p < threshold) papers))
   \<and> ((\<forall>p\<in>set papers. venue p \<noteq> Null) \<longrightarrow>
        (\<exists>r. identify_low_visibility_papers now_year papers threshold = Inr r))"
proof (intro conjI impI)
  assume res: "identify_low_visibility_papers now_year papers threshold = Inr res"
  then obtain es where es: "low_visibility_loop now_year threshold papers = Inr es"
    and r: "res = sorted_reverse lv_potential es"
    by (auto simp: identify_low_visibility_papers_def split: sum.splits)
  show "\<forall>e\<in>set res.
          1 \<le> lv_age e \<and> lv_citations e < threshold \<and> 0 \<le> lv_potential e
          \<and> (\<exists>p\<in>set papers. year p = Val (lv_year e) \<and> lv_age e = now_year - lv_year e
                \<and> citations p = lv_citations e \<and> title p = lv_title e
                \<and> estimate_potential now_year p = Inr (lv_potential e))"
  proof
    fix e assume "e \<in> set res"
    then have "e \<in> set es" by (simp add: r set_sorted_reverse)
    from low_visibility_loop_entries[OF es this] obtain p where p: "p \<in> set papers"
      "year p = Val (lv_year e)" "lv_age e = now_year - lv_year e" "1 \<le> lv_age e"
      "lv_citations e = citations p" "lv_citations e < threshold" "lv_title e = title p"
      "estimate_potential now_year p = Inr (lv_potential e)"
      by auto
    from estimate_potential_nonneg[OF p(8)] have "0 \<le> lv_potential e" .
    with p show "1 \<le> lv_age e \<and> lv_citations e < threshold \<and> 0 \<le> lv_potential e
          \<and> (\<exists>p\<in>set papers. year p = Val (lv_year e) \<and> lv_age e = now_year - lv_year e
                \<and> citations p = lv_citations e \<and> title p = lv_title e
                \<and> estimate_potential now_year p = Inr (lv_potential e))"
      by auto
  qed
  show "sorted_wrt (\<lambda>a b. lv_potential b \<le> lv_potential a) res"
    unfolding r by (rule sorted_reverse_sorted)
  show "length res = length (filter (\<lambda>p. case get (year p) of None \<Rightarrow> False
            | Some y \<Rightarrow> y \<noteq> 0 \<and> 1 \<le> now_year - y \<and> citations p < threshold) papers)"
    using low_visibility_loop_length[OF es] by (simp add: r length_sorted_reverse)
next
  assume "\<forall>p\<in>set papers. venue p \<noteq> Null"
  from low_visibility_loop_total[OF this, of now_year threshold]
  show "\<exists>r. identify_low_visibility_papers now_year papers threshold = Inr r"
    by (auto simp: identify_low_visibility_papers_def)
qed

lemma example_identify:
  "identify_low_visibility_papers 2026 example_papers 5 =
     Inr [\<lparr>lv_title = ''Old'', lv_year = 2020, lv_citations = 2, lv_age = 6,
           lv_doi = Some ''10.1000/old'', lv_potential = 11\<rparr>,
          \<lparr>lv_title = ''Mid'', lv_year = 2024, lv_citations = 1, lv_age = 2,
           lv_doi = None, lv_potential = 5 / 2\<rparr>]"
proof -
  have l: "lower ''Nature Physics'' = ''nature physics''"
    by code_simp
  have 1: "estimate_potential 2026 \<lparr>title = ''Old'', citations = 2, year = Val 2020,
      doi = Val ''10.1000/old'', venue = Val ''Nature Physics''\<rparr> = Inr 11"
    by (simp add: estimate_potential_def l)
  have 2: "estimate_potential 2026 \<lparr>title = ''Mid'', citations = 1, year = Val 2024,
      doi = Null, venue = Missing\<rparr> = Inr (5 / 2)"
    by (simp add: estimate_potential_def lower_def)
  show ?thesis
    by (simp add: identify_low_visibility_papers_def example_papers_def 1 2 sorted_reverse_def)
qed

theorem identify_low_visibility_papers_entries_witness:
  "identify_low_visibility_papers 2026 example_papers 5 =
     Inr [\<lparr>lv_title = ''Old'', lv_year = 2020, lv_citations = 2, lv_age = 6,
           lv_doi = Some ''10.1000/old'', lv_potential = 11\<rparr>,
          \<lparr>lv_title = ''Mid'', lv_year = 2024, lv_citations = 1, lv_age = 2,
           lv_doi = None, lv_potential = 5 / 2\<rparr>]
   \<and> sorted_wrt (\<lambda>a b. lv_potential b \<le> lv_potential a)
        [\<lparr>lv_title = ''Old'', lv_year = 2020, lv_citations = 2, lv_age = 6,
           lv_doi = Some ''10.1000/old'', lv_potential = 11\<rparr>,
          \<lparr>lv_title = ''Mid'', lv_year = 2024, lv_citations = 1, lv_age = 2,
           lv_doi = None, lv_potential = 5 / 2\<rparr>]
   \<and> (\<exists>r. identify_low_visibility_papers 2026 example_papers 5 = Inr r)"
proof -
  have nn: "\<forall>p\<in>set example_papers. venue p \<noteq> Null"
    by (simp add: example_papers_def)
  from identify_low_visibility_papers_entries[of 2026 example_papers 5
      "[\<lparr>lv_title = ''Old'', lv_year = 2020, lv_citations = 2, lv_age = 6,
           lv_doi = Some ''10.1000/old'', lv_potential = 11\<rparr>,
          \<lparr>lv_title = ''Mid'', lv_year = 2024, lv_citations = 1, lv_age = 2,
           lv_doi = None, lv_potential = 5 / 2\<rparr>]"]
    example_identify nn
  show ?thesis by blast
qed

text \<open>
  C3. The claim that a missing or null optional field is treated as a default value
  fails for a venue stored as null: \<open>paper.get('venue', '')\<close> returns the stored
  \<open>None\<close>, whose \<open>lower()\<close> raises, so scoring the paper fails and with it
  \<open>identify_low_visibility_papers\<close>. An absent venue key is treated as the empty string.
\<close>

theorem identify_low_visibility_papers_null_venue:
  "estimate_potential 2026
     \<lparr>title = ''T'', citations = 1, year = Val 2020, doi = Null, venue = Null\<rparr>
     = Inl AttributeError
   \<and> identify_low_visibility_papers 2026
       [\<lparr>title = ''T'', citations = 1, year = Val 2020, doi = Null, venue = Null\<rparr>] 5
     = Inl AttributeError
   \<and> estimate_potential 2026
     \<lparr>title = ''T'', citations = 1, year = Val 2020, doi = Null, venue = Missing\<rparr>
     = Inr (1 / 2)"
  by (simp add: identify_low_visibility_papers_def estimate_potential_def lower_def)

end
